theory Spec2Isabelle
  imports Complex_Main "HOL-Library.AList" "HOL-Library.Sublist" "HOL-Library.Multiset"
begin

section \<open>Strings\<close>

text \<open>
  A Python \<open>str\<close> is a sequence of code points. The model uses \<^typ>\<open>string\<close>, one
  \<^typ>\<open>char\<close> per code point, and so covers the strings whose code points lie below 256
  (ASCII and Latin-1; the detector's label vocabulary and the category table are ASCII).

  \<open>str.lower()\<close> maps this range into itself: \<open>A\<close>..\<open>Z\<close> and the Latin-1 capitals
  192..222 (but the multiplication sign 215) move up by 32, every other code point stays.
\<close>

definition lower_char :: "char \<Rightarrow> char" where
  "lower_char c =
     (let n = (of_char c :: nat)
      in if (65 \<le> n \<and> n \<le> 90) \<or> (192 \<le> n \<and> n \<le> 222 \<and> n \<noteq> 215)
         then char_of (n + 32) else c)"

definition str_lower :: "string \<Rightarrow> string" where
  "str_lower s = map lower_char s"

text \<open>
  \<open>str.title()\<close> walks the string once: a character that follows a cased character is
  lowercased, any other character is put in title case. Three Latin-1 code points have a
  title-case form outside the range of \<^typ>\<open>char\<close> (181, 223 and 255); the model leaves
  them as they are, so \<open>str_title\<close> is Python's \<open>title\<close> on every string without them.
\<close>

definition is_cased :: "char \<Rightarrow> bool" where
  "is_cased c =
     (let n = (of_char c :: nat)
      in (65 \<le> n \<and> n \<le> 90) \<or> (97 \<le> n \<and> n \<le> 122) \<or> n = 170 \<or> n = 181 \<or> n = 186
         \<or> (192 \<le> n \<and> n \<noteq> 215 \<and> n \<noteq> 247))"

definition title_char :: "char \<Rightarrow> char" where
  "title_char c =
     (let n = (of_char c :: nat)
      in if (97 \<le> n \<and> n \<le> 122) \<or> (224 \<le> n \<and> n \<le> 254 \<and> n \<noteq> 247)
         then char_of (n - 32) else c)"

fun title_from :: "bool \<Rightarrow> string \<Rightarrow> string" where
  "title_from previous_is_cased [] = []"
| "title_from previous_is_cased (c # cs) =
     (if previous_is_cased then lower_char c else title_char c) # title_from (is_cased c) cs"

definition str_title :: "string \<Rightarrow> string" where
  "str_title s = title_from False s"

section \<open>Floats\<close>

text \<open>
  A Python \<open>float\<close> is an IEEE binary64 value: a finite number \<open>m * 2^e\<close>, an infinity or
  NaN. \<open>Finite m e\<close> stands for \<open>m * 2^e\<close>; \<open>binary64\<close> holds of the values the format
  has (53 bits of significand, exponents from the subnormals up to the largest finite
  number).
\<close>

datatype pyfloat = Finite int int | PosInf | NegInf | NaN

definition float_val :: "int \<Rightarrow> int \<Rightarrow> real" where
  "float_val m e = (if 0 \<le> e then of_int m * 2 ^ nat e else of_int m / 2 ^ nat (- e))"

fun binary64 :: "pyfloat \<Rightarrow> bool" where
  "binary64 (Finite m e) = (\<bar>m\<bar> < 2 ^ 53 \<and> - 1074 \<le> e \<and> e \<le> 971)"
| "binary64 _ = True"

text \<open>Python's \<open>a >= b\<close> on floats: false as soon as one side is NaN.\<close>

fun float_ge :: "pyfloat \<Rightarrow> pyfloat \<Rightarrow> bool" where
  "float_ge NaN b = False"
| "float_ge a NaN = False"
| "float_ge PosInf b = True"
| "float_ge a NegInf = True"
| "float_ge NegInf b = False"
| "float_ge a PosInf = False"
| "float_ge (Finite m e) (Finite m' e') = (float_val m' e' \<le> float_val m e)"

text \<open>
  The literals \<open>0.8\<close> and \<open>0.5\<close> of the source denote the binary64 numbers nearest to
  them: \<open>0.5\<close> is exact, \<open>0.8\<close> is \<open>0x1.999999999999ap-1\<close>, slightly above four fifths.
\<close>

definition literal_0_8 :: pyfloat where
  "literal_0_8 = Finite 7205759403792794 (- 53)"

definition literal_0_5 :: pyfloat where
  "literal_0_5 = Finite 1 (- 1)"

section \<open>Data model\<close>

text \<open>
  A detection is the dictionary \<open>{'class': ..., 'confidence': ...}\<close> that
  \<open>detect_objects\<close> builds; the two fields carry the names under which
  \<open>map_detection_to_item\<close> reads them.
\<close>

record detection =
  class_name :: string
  confidence_score :: pyfloat

record DetectedItem =
  name :: string
  description :: string
  category :: string
  quantity :: int
  condition :: string
  confidence :: string
  aiGenerated :: bool
  sourcePhoto :: string

record AnalysisResponse =
  items :: "DetectedItem list"
  photosAnalyzed :: int

datatype py_exception = KeyError string | HTTPException int string

definition category_table :: "(string \<times> string) list" where
  "category_table =
     [(''laptop'', ''electronics''), (''cell phone'', ''electronics''), (''tv'', ''electronics''),
      (''keyboard'', ''electronics''), (''mouse'', ''electronics''), (''remote'', ''electronics''),
      (''clock'', ''electronics''),
      (''bottle'', ''kitchen''), (''wine glass'', ''kitchen''), (''cup'', ''kitchen''),
      (''fork'', ''kitchen''), (''knife'', ''kitchen''), (''spoon'', ''kitchen''),
      (''bowl'', ''kitchen''), (''banana'', ''kitchen''), (''apple'', ''kitchen''),
      (''orange'', ''kitchen''), (''broccoli'', ''kitchen''), (''carrot'', ''kitchen''),
      (''pizza'', ''kitchen''), (''donut'', ''kitchen''), (''cake'', ''kitchen''),
      (''refrigerator'', ''kitchen''), (''microwave'', ''kitchen''), (''oven'', ''kitchen''),
      (''toaster'', ''kitchen''),
      (''handbag'', ''clothing''), (''tie'', ''clothing''), (''suitcase'', ''clothing''),
      (''umbrella'', ''clothing''), (''backpack'', ''clothing''),
      (''frisbee'', ''sports''), (''skis'', ''sports''), (''snowboard'', ''sports''),
      (''sports ball'', ''sports''), (''kite'', ''sports''), (''baseball bat'', ''sports''),
      (''baseball glove'', ''sports''), (''skateboard'', ''sports''), (''surfboard'', ''sports''),
      (''tennis racket'', ''sports''),
      (''book'', ''books''), (''teddy bear'', ''toys''),
      (''scissors'', ''tools''), (''hair drier'', ''tools''), (''toothbrush'', ''tools''),
      (''chair'', ''decorations''), (''couch'', ''decorations''),
      (''potted plant'', ''decorations''), (''bed'', ''decorations''),
      (''dining table'', ''decorations''), (''toilet'', ''decorations''),
      (''sink'', ''decorations''), (''vase'', ''decorations'')]"

definition CATEGORY_MAPPING :: "string \<rightharpoonup> string" where
  "CATEGORY_MAPPING = map_of category_table"

section \<open>The item builder\<close>

text \<open>
  \<open>map_detection_to_item\<close>. The description embeds the score rendered by the format
  specification \<open>.0%\<close>, which multiplies by 100 in binary64 and rounds the product to
  an integer; that rendering is the parameter \<open>percent\<close>, since nothing below depends
  on the text it produces.
\<close>

definition map_detection_to_item ::
    "(pyfloat \<Rightarrow> string) \<Rightarrow> detection \<Rightarrow> string \<Rightarrow> DetectedItem" where
  "map_detection_to_item percent det photo_url =
     (let item_name = str_title (class_name det);
          confidence_level =
            (if float_ge (confidence_score det) literal_0_8 then ''high''
             else if float_ge (confidence_score det) literal_0_5 then ''medium''
             else ''low'')
      in \<lparr>name = item_name,
          description = ''Detected with '' @ percent (confidence_score det) @ '' confidence'',
          category = (case CATEGORY_MAPPING (str_lower (class_name det)) of
                        Some c \<Rightarrow> c | None \<Rightarrow> ''uncategorized''),
          quantity = 1,
          condition = ''good'',
          confidence = confidence_level,
          aiGenerated = True,
          sourcePhoto = photo_url\<rparr>)"

section \<open>The consolidator\<close>

text \<open>
  \<open>consolidate_items\<close> keeps a dictionary from keys to representative items. A Python
  dictionary iterates in insertion order, and assigning to a key that is present keeps
  the key's position: the dictionary is an association list, read with \<^const>\<open>map_of\<close>
  and written with \<^const>\<open>AList.update\<close>, which replaces the entry of a present key
  where it stands and appends the entry of a new key.

  The source stores the input object itself as the representative and updates it in
  place; the model passes the updated record on. The returned list is the same either
  way, also when one object occurs several times in the input: a second occurrence of
  the representative compares its tier with itself, and the model compares the tier of
  the first occurrence with a tier that is at least as high, so neither overwrites.
\<close>

definition item_key :: "DetectedItem \<Rightarrow> string" where
  "item_key item = str_lower (name item) @ ''-'' @ category item"

definition confidence_levels :: "string \<rightharpoonup> int" where
  "confidence_levels = map_of [(''high'', 3), (''medium'', 2), (''low'', 1)]"

text \<open>
  The loop body. Looking a tier up in \<open>confidence_levels\<close> raises \<open>KeyError\<close> when the
  string is not one of the three names; the representative's tier is looked up first.
\<close>

definition consolidate_step ::
    "(string \<times> DetectedItem) list \<Rightarrow> DetectedItem
       \<Rightarrow> py_exception + (string \<times> DetectedItem) list" where
  "consolidate_step item_map item =
     (let key = item_key item
      in case map_of item_map key of
           Some rep \<Rightarrow>
             (let rep1 = rep\<lparr>quantity := quantity rep + 1\<rparr>
              in case confidence_levels (confidence rep1) of
                   None \<Rightarrow> Inl (KeyError (confidence rep1))
                 | Some current_level \<Rightarrow>
                     (case confidence_levels (confidence item) of
                        None \<Rightarrow> Inl (KeyError (confidence item))
                      | Some new_level \<Rightarrow>
                          Inr (AList.update key
                                 (if new_level > current_level
                                  then rep1\<lparr>confidence := confidence item\<rparr> else rep1)
                                 item_map)))
         | None \<Rightarrow> Inr (AList.update key item item_map))"

fun consolidate_loop ::
    "(string \<times> DetectedItem) list \<Rightarrow> DetectedItem list
       \<Rightarrow> py_exception + (string \<times> DetectedItem) list" where
  "consolidate_loop item_map [] = Inr item_map"
| "consolidate_loop item_map (item # rest) =
     (case consolidate_step item_map item of
        Inl e \<Rightarrow> Inl e
      | Inr item_map' \<Rightarrow> consolidate_loop item_map' rest)"

definition consolidate_items :: "DetectedItem list \<Rightarrow> py_exception + DetectedItem list" where
  "consolidate_items its =
     (case consolidate_loop [] its of
        Inl e \<Rightarrow> Inl e
      | Inr item_map \<Rightarrow> Inr (map snd item_map))"

section \<open>The multi-photo handler\<close>

text \<open>
  Fetching an image and running the detector act on the world outside the service. The
  world is a state \<open>'w\<close> that both calls read and change, so that the same URL may
  fail once and succeed later. \<open>fetch_image\<close> stands for the body of the \<open>try\<close> block
  of \<open>download_image\<close> (the HTTP request, the status check and the decoding) and
  \<open>run_model\<close> for that of \<open>detect_objects\<close> (inference and the extraction of class
  name and score from every box); each returns its result or the text of the exception
  it raised.
\<close>

record ('w, 'img) env =
  fetch_image :: "string \<Rightarrow> 'w \<Rightarrow> (string + 'img) \<times> 'w"
  run_model :: "'img \<Rightarrow> pyfloat \<Rightarrow> 'w \<Rightarrow> (string + detection list) \<times> 'w"
  percent :: "pyfloat \<Rightarrow> string"

record AnalyzeMultipleRequest =
  photoUrls :: "string list"

definition download_image ::
    "('w, 'img) env \<Rightarrow> string \<Rightarrow> 'w \<Rightarrow> (py_exception + 'img) \<times> 'w" where
  "download_image env url w =
     (case fetch_image env url w of
        (Inl e, w') \<Rightarrow> (Inl (HTTPException 400 (''Failed to download image: '' @ e)), w')
      | (Inr img, w') \<Rightarrow> (Inr img, w'))"

definition detect_objects ::
    "('w, 'img) env \<Rightarrow> 'img \<Rightarrow> pyfloat \<Rightarrow> 'w \<Rightarrow> (py_exception + detection list) \<times> 'w" where
  "detect_objects env img confidence_threshold w =
     (case run_model env img confidence_threshold w of
        (Inl e, w') \<Rightarrow> (Inl (HTTPException 500 (''Detection failed: '' @ e)), w')
      | (Inr detections, w') \<Rightarrow> (Inr detections, w'))"

text \<open>
  The body of the \<open>try\<close> block inside the loop of \<open>analyze_multiple_photos\<close>: the
  items of one photo, or the exception that ended the attempt. \<open>detect_objects\<close> is
  called with its default threshold \<open>0.5\<close>.
\<close>

definition photo_items ::
    "('w, 'img) env \<Rightarrow> string \<Rightarrow> 'w \<Rightarrow> (py_exception + DetectedItem list) \<times> 'w" where
  "photo_items env photo_url w =
     (case download_image env photo_url w of
        (Inl e, w1) \<Rightarrow> (Inl e, w1)
      | (Inr img, w1) \<Rightarrow>
          (case detect_objects env img literal_0_5 w1 of
             (Inl e, w2) \<Rightarrow> (Inl e, w2)
           | (Inr detections, w2) \<Rightarrow>
               (Inr (map (\<lambda>det. map_detection_to_item (percent env) det photo_url) detections),
                w2)))"

text \<open>The loop: \<open>except Exception\<close> logs the failure and goes on to the next URL.\<close>

fun collect_items ::
    "('w, 'img) env \<Rightarrow> DetectedItem list \<Rightarrow> string list \<Rightarrow> 'w \<Rightarrow> DetectedItem list \<times> 'w" where
  "collect_items env all_items [] w = (all_items, w)"
| "collect_items env all_items (photo_url # rest) w =
     (case photo_items env photo_url w of
        (Inr its, w') \<Rightarrow> collect_items env (all_items @ its) rest w'
      | (Inl e, w') \<Rightarrow> collect_items env all_items rest w')"

text \<open>
  \<open>consolidate_items\<close> is called outside the \<open>try\<close> block: an exception it raised
  would reach the caller.
\<close>

definition analyze_multiple_photos ::
    "('w, 'img) env \<Rightarrow> AnalyzeMultipleRequest \<Rightarrow> 'w \<Rightarrow> (py_exception + AnalysisResponse) \<times> 'w" where
  "analyze_multiple_photos env request w =
     (case collect_items env [] (photoUrls request) w of
        (all_items, w') \<Rightarrow>
          (case consolidate_items all_items of
             Inl e \<Rightarrow> (Inl e, w')
           | Inr consolidated_items \<Rightarrow>
               (Inr \<lparr>items = consolidated_items,
                     photosAnalyzed = int (length (photoUrls request))\<rparr>, w')))"

section \<open>Notions of the specification\<close>

text \<open>
  The specification names the pair of the lowercased name and the category as the
  consolidation key of an item; the source joins the two with a hyphen (\<open>item_key\<close>).
\<close>

definition consolidation_key :: "DetectedItem \<Rightarrow> string \<times> string" where
  "consolidation_key item = (str_lower (name item), category item)"

text \<open>The input items that share the consolidation key of \<open>r\<close>, in input order.\<close>

definition sharing_key :: "DetectedItem \<Rightarrow> DetectedItem list \<Rightarrow> DetectedItem list" where
  "sharing_key r its = filter (\<lambda>i. consolidation_key i = consolidation_key r) its"

text \<open>The input items under one dictionary key, in input order.\<close>

definition occurrences :: "string \<Rightarrow> DetectedItem list \<Rightarrow> DetectedItem list" where
  "occurrences k its = filter (\<lambda>i. item_key i = k) its"

text \<open>The elements of a list in the order of their first occurrence.\<close>

fun first_occurrences :: "'a list \<Rightarrow> 'a list" where
  "first_occurrences [] = []"
| "first_occurrences (x # xs) = x # first_occurrences (filter (\<lambda>y. y \<noteq> x) xs)"

text \<open>
  The tiers are the three names of \<open>confidence_levels\<close>, ordered by their level
  \<open>low(1) < medium(2) < high(3)\<close>; any other string has level 0 and is no tier.
\<close>

definition valid_tier :: "string \<Rightarrow> bool" where
  "valid_tier c = (confidence_levels c \<noteq> None)"

definition level :: "string \<Rightarrow> int" where
  "level c = (case confidence_levels c of Some n \<Rightarrow> n | None \<Rightarrow> 0)"

definition higher_tier :: "string \<Rightarrow> string \<Rightarrow> string" where
  "higher_tier c c' = (if level c < level c' then c' else c)"

text \<open>
  What the items of one key merge into: the first of them, with one added to its
  quantity for each later item and with the highest tier seen so far.
\<close>

fun merged :: "DetectedItem list \<Rightarrow> DetectedItem option" where
  "merged [] = None"
| "merged (first # later) =
     Some (first\<lparr>quantity := quantity first + int (length later),
                 confidence := foldl higher_tier (confidence first) (map confidence later)\<rparr>)"

text \<open>
  Comparing a float with a real number: \<open>at_least s t\<close> is \<open>s \<ge> t\<close> and \<open>below s t\<close>
  is \<open>s < t\<close>, both false for NaN.
\<close>

fun at_least :: "pyfloat \<Rightarrow> real \<Rightarrow> bool" where
  "at_least (Finite m e) t = (t \<le> float_val m e)"
| "at_least PosInf t = True"
| "at_least NegInf t = False"
| "at_least NaN t = False"

fun below :: "pyfloat \<Rightarrow> real \<Rightarrow> bool" where
  "below (Finite m e) t = (float_val m e < t)"
| "below PosInf t = False"
| "below NegInf t = True"
| "below NaN t = False"

text \<open>
  The outcomes of the attempts of one request, URL by URL, and the items an outcome
  contributes.
\<close>

fun photo_results ::
    "('w, 'img) env \<Rightarrow> string list \<Rightarrow> 'w \<Rightarrow> (py_exception + DetectedItem list) list" where
  "photo_results env [] w = []"
| "photo_results env (photo_url # rest) w =
     (case photo_items env photo_url w of (r, w') \<Rightarrow> r # photo_results env rest w')"

definition items_of :: "py_exception + DetectedItem list \<Rightarrow> DetectedItem list" where
  "items_of r = (case r of Inl e \<Rightarrow> [] | Inr its \<Rightarrow> its)"

section \<open>Example data\<close>

definition laptop_photo1 :: DetectedItem where
  "laptop_photo1 =
     \<lparr>name = ''Laptop'', description = ''Detected with 65% confidence'',
      category = ''electronics'', quantity = 1, condition = ''good'', confidence = ''medium'',
      aiGenerated = True, sourcePhoto = ''photo1.jpg''\<rparr>"

definition laptop_photo2 :: DetectedItem where
  "laptop_photo2 =
     \<lparr>name = ''Laptop'', description = ''Detected with 92% confidence'',
      category = ''electronics'', quantity = 1, condition = ''good'', confidence = ''high'',
      aiGenerated = True, sourcePhoto = ''photo2.jpg''\<rparr>"

definition mouse_photo2 :: DetectedItem where
  "mouse_photo2 =
     \<lparr>name = ''Mouse'', description = ''Detected with 85% confidence'',
      category = ''electronics'', quantity = 1, condition = ''good'', confidence = ''high'',
      aiGenerated = True, sourcePhoto = ''photo2.jpg''\<rparr>"

definition bottle_crate :: DetectedItem where
  "bottle_crate =
     \<lparr>name = ''Bottle'', description = ''A crate of bottles'',
      category = ''kitchen'', quantity = 5, condition = ''good'', confidence = ''low'',
      aiGenerated = False, sourcePhoto = ''photo3.jpg''\<rparr>"

definition bottle_single :: DetectedItem where
  "bottle_single =
     \<lparr>name = ''Bottle'', description = ''Detected with 45% confidence'',
      category = ''kitchen'', quantity = 1, condition = ''good'', confidence = ''low'',
      aiGenerated = True, sourcePhoto = ''photo4.jpg''\<rparr>"

definition tshirt :: DetectedItem where
  "tshirt =
     \<lparr>name = ''T-Shirt'', description = ''A shirt'',
      category = ''clothing'', quantity = 1, condition = ''good'', confidence = ''low'',
      aiGenerated = True, sourcePhoto = ''photo5.jpg''\<rparr>"

definition tee :: DetectedItem where
  "tee =
     \<lparr>name = ''T'', description = ''A golf tee'',
      category = ''shirt-clothing'', quantity = 1, condition = ''good'', confidence = ''low'',
      aiGenerated = True, sourcePhoto = ''photo6.jpg''\<rparr>"

text \<open>A world in which no image can be fetched.\<close>

definition offline :: "(unit, unit) env" where
  "offline =
     \<lparr>fetch_image = (\<lambda>url w. (Inl ''connection refused'', w)),
      run_model = (\<lambda>img threshold w. (Inr [], w)),
      percent = (\<lambda>score. ''0%'')\<rparr>"

text \<open>
  The floats that the literals \<open>0.7999\<close>, \<open>0.4999\<close> and \<open>0.92\<close> denote, and a detection
  of a laptop with a given score.
\<close>

definition score_0_7999 :: pyfloat where
  "score_0_7999 = Finite 7204858683867320 (- 53)"

definition score_0_4999 :: pyfloat where
  "score_0_4999 = Finite 9005397814890044 (- 54)"

definition score_0_92 :: pyfloat where
  "score_0_92 = Finite 8286623314361713 (- 53)"

definition laptop_detection :: "pyfloat \<Rightarrow> detection" where
  "laptop_detection score = \<lparr>class_name = ''laptop'', confidence_score = score\<rparr>"

text \<open>
  A world in which only the first photo can be fetched and the detector sees one laptop
  in it, and the item built from that detection.
\<close>

definition photo1_only :: "(unit, unit) env" where
  "photo1_only =
     \<lparr>fetch_image = (\<lambda>url w. if url = ''http://localhost:3000/uploads/photo1.jpg''
                               then (Inr (), w) else (Inl ''Failed to download'', w)),
      run_model = (\<lambda>img threshold w. (Inr [laptop_detection score_0_92], w)),
      percent = (\<lambda>score. ''92%'')\<rparr>"

definition built_laptop :: DetectedItem where
  "built_laptop =
     \<lparr>name = ''Laptop'', description = ''Detected with 92% confidence'',
      category = ''electronics'', quantity = 1, condition = ''good'', confidence = ''high'',
      aiGenerated = True, sourcePhoto = ''http://localhost:3000/uploads/photo1.jpg''\<rparr>"

section \<open>The loop invariant\<close>

subsection \<open>First occurrences and dictionaries\<close>

lemma set_first_occurrences [simp]: "set (first_occurrences xs) = set xs"
  by (induction xs rule: first_occurrences.induct) auto

lemma distinct_first_occurrences [simp]: "distinct (first_occurrences xs)"
  by (induction xs rule: first_occurrences.induct) auto

lemma first_occurrences_snoc:
  "first_occurrences (xs @ [a]) =
     (if a \<in> set xs then first_occurrences xs else first_occurrences xs @ [a])"
  by (induction xs rule: first_occurrences.induct) auto

lemma first_occurrences_distinct: "distinct xs \<Longrightarrow> first_occurrences xs = xs"
proof (induction xs)
  case Nil
  show ?case by simp
next
  case (Cons x xs)
  from Cons.prems have "\<forall>y\<in>set xs. y \<noteq> x"
    by fastforce
  then have flt: "filter (\<lambda>y. y \<noteq> x) xs = xs"
    by (simp only: filter_id_conv)
  from Cons have "first_occurrences xs = xs"
    by simp
  then show ?case
    by (simp add: flt)
qed

lemma map_snd_by_keys:
  "distinct (map fst m) \<Longrightarrow> map snd m = map (\<lambda>k. the (map_of m k)) (map fst m)"
proof (induction m)
  case Nil
  show ?case by simp
next
  case (Cons p m)
  have "map (\<lambda>k. the (map_of (p # m) k)) (map fst m) = map (\<lambda>k. the (map_of m k)) (map fst m)"
  proof (rule map_cong [OF refl])
    fix k assume k: "k \<in> set (map fst m)"
    from Cons.prems have "fst p \<notin> set (map fst m)" by simp
    with k have "k \<noteq> fst p" by blast
    then show "the (map_of (p # m) k) = the (map_of m k)" by (cases p) simp
  qed
  with Cons show ?case by (cases p) simp
qed

subsection \<open>The dictionary after a run\<close>

lemma consolidate_loop_snoc:
  "consolidate_loop m (xs @ [x]) =
     (case consolidate_loop m xs of Inl e \<Rightarrow> Inl e | Inr m' \<Rightarrow> consolidate_step m' x)"
  by (induction xs arbitrary: m) (auto split: sum.splits)

lemma merged_eq_None [simp]: "merged xs = None \<longleftrightarrow> xs = []"
  by (cases xs) auto

lemma occurrences_snoc:
  "occurrences k (xs @ [x]) = (if item_key x = k then occurrences k xs @ [x] else occurrences k xs)"
  by (simp add: occurrences_def)

lemma occurrences_empty_iff: "occurrences k xs = [] \<longleftrightarrow> k \<notin> item_key ` set xs"
  by (auto simp: occurrences_def filter_empty_conv)

lemma merged_snoc:
  "xs \<noteq> [] \<Longrightarrow> merged (xs @ [x]) =
     map_option (\<lambda>r. r\<lparr>quantity := quantity r + 1,
                       confidence := higher_tier (confidence r) (confidence x)\<rparr>) (merged xs)"
  by (cases xs) auto

lemma merged_single [simp]: "merged [x] = Some x"
  by simp

text \<open>What one step does to a dictionary that satisfies the loop invariant.\<close>

lemma consolidate_step_new:
  "map_of m (item_key x) = None \<Longrightarrow> consolidate_step m x = Inr (AList.update (item_key x) x m)"
  by (simp add: consolidate_step_def)

lemma consolidate_step_present:
  assumes "map_of m (item_key x) = Some rep" and "consolidate_step m x = Inr m'"
  shows "m' = AList.update (item_key x)
                (rep\<lparr>quantity := quantity rep + 1,
                     confidence := higher_tier (confidence rep) (confidence x)\<rparr>) m"
    and "valid_tier (confidence rep)" and "valid_tier (confidence x)"
  using assms
  by (auto simp: consolidate_step_def higher_tier_def level_def valid_tier_def Let_def
           split: option.splits if_splits)

lemma loop_invariant:
  "consolidate_loop [] its = Inr m \<Longrightarrow>
     map fst m = first_occurrences (map item_key its) \<and>
     (\<forall>k. map_of m k = merged (occurrences k its))"
proof (induction its arbitrary: m rule: rev_induct)
  case Nil
  then show ?case by (simp add: occurrences_def)
next
  case (snoc x xs)
  from snoc.prems obtain m0 where m0: "consolidate_loop [] xs = Inr m0"
    and step: "consolidate_step m0 x = Inr m"
    by (auto simp: consolidate_loop_snoc split: sum.splits)
  from snoc.IH [OF m0] have keys: "map fst m0 = first_occurrences (map item_key xs)"
    and vals: "\<And>k. map_of m0 k = merged (occurrences k xs)"
    by simp_all
  show ?case
  proof (cases "map_of m0 (item_key x)")
    case None
    with vals have fresh: "item_key x \<notin> item_key ` set xs"
      by (simp add: occurrences_empty_iff)
    from None step have m: "m = AList.update (item_key x) x m0"
      by (simp add: consolidate_step_new)
    have "map fst m = first_occurrences (map item_key (xs @ [x]))"
      using fresh keys by (simp add: m update_keys first_occurrences_snoc)
    moreover have "map_of m k = merged (occurrences k (xs @ [x]))" for k
      using fresh vals [of k] by (auto simp: m update_conv' occurrences_snoc occurrences_empty_iff [symmetric])
    ultimately show ?thesis by blast
  next
    case (Some rep)
    from consolidate_step_present(1) [OF Some step]
    have m: "m = AList.update (item_key x)
                (rep\<lparr>quantity := quantity rep + 1,
                     confidence := higher_tier (confidence rep) (confidence x)\<rparr>) m0" .
    from Some vals [of "item_key x"] have mer: "merged (occurrences (item_key x) xs) = Some rep"
      by simp
    then have nonempty: "occurrences (item_key x) xs \<noteq> []"
      by auto
    then have seen: "item_key x \<in> item_key ` set xs"
      by (simp add: occurrences_empty_iff)
    have "map fst m = first_occurrences (map item_key (xs @ [x]))"
      using seen keys by (simp add: m update_keys first_occurrences_snoc)
    moreover have "map_of m k = merged (occurrences k (xs @ [x]))" for k
      using vals [of k] mer nonempty
      by (simp add: m update_conv' occurrences_snoc merged_snoc)
    ultimately show ?thesis by blast
  qed
qed

lemma item_key_consolidation_key:
  "item_key i = fst (consolidation_key i) @ ''-'' @ snd (consolidation_key i)"
  by (simp add: item_key_def consolidation_key_def)

lemma same_consolidation_key:
  "consolidation_key a = consolidation_key b \<Longrightarrow> item_key a = item_key b"
  by (simp add: item_key_consolidation_key)

lemma consolidate_items_eq:
  assumes "consolidate_items its = Inr out"
  shows "out = map (\<lambda>k. the (merged (occurrences k its))) (first_occurrences (map item_key its))"
proof -
  from assms obtain m where m: "consolidate_loop [] its = Inr m" and out: "out = map snd m"
    by (auto simp: consolidate_items_def split: sum.splits)
  from loop_invariant [OF m] have keys: "map fst m = first_occurrences (map item_key its)"
    and vals: "\<And>k. map_of m k = merged (occurrences k its)"
    by simp_all
  from keys have "distinct (map fst m)"
    by simp
  then have "map snd m = map (\<lambda>k. the (map_of m k)) (map fst m)"
    by (rule map_snd_by_keys)
  then show ?thesis
    by (simp add: out keys vals)
qed

lemma find_filter_conv:
  "find P xs = (case filter P xs of [] \<Rightarrow> None | x # _ \<Rightarrow> Some x)"
  by (induction xs) simp_all

lemma item_key_update [simp]:
  "item_key (i\<lparr>quantity := q\<rparr>) = item_key i" "item_key (i\<lparr>confidence := c\<rparr>) = item_key i"
  by (simp_all add: item_key_def)

lemma consolidation_key_update [simp]:
  "consolidation_key (i\<lparr>quantity := q\<rparr>) = consolidation_key i"
  "consolidation_key (i\<lparr>confidence := c\<rparr>) = consolidation_key i"
  by (simp_all add: consolidation_key_def)

text \<open>Every output item is the first input item of its key, with the other items of the key merged in.\<close>

lemma output_representative:
  assumes "consolidate_items its = Inr out" and "r \<in> set out"
  obtains f later where "occurrences (item_key r) its = f # later"
    and "r = f\<lparr>quantity := quantity f + int (length later),
               confidence := foldl higher_tier (confidence f) (map confidence later)\<rparr>"
proof -
  from assms obtain k where k: "k \<in> set (map item_key its)"
    and r: "r = the (merged (occurrences k its))"
    by (auto simp: consolidate_items_eq [OF assms(1)])
  from k have "occurrences k its \<noteq> []"
    by (simp add: occurrences_empty_iff)
  then obtain f later where fl: "occurrences k its = f # later"
    by (cases "occurrences k its") auto
  then have "f \<in> set (occurrences k its)"
    by simp
  then have kf: "item_key f = k"
    by (simp add: occurrences_def)
  from r fl have r': "r = f\<lparr>quantity := quantity f + int (length later),
               confidence := foldl higher_tier (confidence f) (map confidence later)\<rparr>"
    by simp
  then have "item_key r = k"
    using kf by simp
  with fl r' that show thesis
    by blast
qed

subsection \<open>Tiers\<close>

lemma valid_tier_iff: "valid_tier c \<longleftrightarrow> c = ''high'' \<or> c = ''medium'' \<or> c = ''low''"
  by (simp add: valid_tier_def confidence_levels_def)

lemma level_simps [simp]: "level ''high'' = 3" "level ''medium'' = 2" "level ''low'' = 1"
  by (simp_all add: level_def confidence_levels_def)

lemma level_inj: "valid_tier a \<Longrightarrow> valid_tier b \<Longrightarrow> level a = level b \<Longrightarrow> a = b"
  by (auto simp: valid_tier_iff)

lemma higher_tier_cases: "higher_tier c c' = c \<or> higher_tier c c' = c'"
  by (simp add: higher_tier_def)

lemma level_higher_tier: "level (higher_tier c c') = max (level c) (level c')"
  by (simp add: higher_tier_def)

lemma foldl_higher_tier_mem: "foldl higher_tier c cs \<in> set (c # cs)"
proof (induction cs arbitrary: c)
  case Nil
  show ?case by simp
next
  case (Cons d cs)
  from Cons [of "higher_tier c d"] higher_tier_cases [of c d] show ?case
    by auto
qed

lemma level_foldl_higher_tier:
  "level (foldl higher_tier c cs) = Max (level ` set (c # cs))"
proof (induction cs arbitrary: c)
  case Nil
  show ?case by simp
next
  case (Cons d cs)
  have "level (foldl higher_tier c (d # cs)) = Max (level ` set (higher_tier c d # cs))"
    using Cons [of "higher_tier c d"] by simp
  also have "\<dots> = Max (insert (max (level c) (level d)) (level ` set cs))"
    by (simp add: level_higher_tier)
  also have "\<dots> = Max (level ` set (c # d # cs))"
  proof (cases "cs = []")
    case True
    then show ?thesis by simp
  next
    case False
    then show ?thesis by (simp add: max.assoc)
  qed
  finally show ?case .
qed

subsection \<open>Termination without error\<close>

lemma set_update_subset: "set (AList.update k v m) \<subseteq> insert (k, v) (set m)"
  by (induction m) auto

lemma consolidate_step_valid:
  assumes "\<forall>p\<in>set m. valid_tier (confidence (snd p))" and "valid_tier (confidence x)"
  shows "\<exists>m'. consolidate_step m x = Inr m' \<and> (\<forall>p\<in>set m'. valid_tier (confidence (snd p)))"
proof (cases "map_of m (item_key x)")
  case None
  then have "consolidate_step m x = Inr (AList.update (item_key x) x m)"
    by (rule consolidate_step_new)
  moreover have "\<forall>p\<in>set (AList.update (item_key x) x m). valid_tier (confidence (snd p))"
    using assms set_update_subset [of "item_key x" x m] by auto
  ultimately show ?thesis by blast
next
  case (Some rep)
  then have "(item_key x, rep) \<in> set m"
    by (rule map_of_SomeD)
  with assms(1) have rep: "valid_tier (confidence rep)"
    by force
  let ?rep' = "rep\<lparr>quantity := quantity rep + 1,
                    confidence := higher_tier (confidence rep) (confidence x)\<rparr>"
  from rep assms(2) Some have "consolidate_step m x = Inr (AList.update (item_key x) ?rep' m)"
    by (auto simp: consolidate_step_def valid_tier_def higher_tier_def level_def Let_def)
  moreover have "valid_tier (confidence ?rep')"
    using rep assms(2) higher_tier_cases [of "confidence rep" "confidence x"] by auto
  then have "\<forall>p\<in>set (AList.update (item_key x) ?rep' m). valid_tier (confidence (snd p))"
    using assms(1) set_update_subset [of "item_key x" ?rep' m] by auto
  ultimately show ?thesis by blast
qed

lemma consolidate_loop_valid:
  assumes "\<forall>p\<in>set m. valid_tier (confidence (snd p))" and "\<forall>i\<in>set its. valid_tier (confidence i)"
  shows "\<exists>m'. consolidate_loop m its = Inr m'"
  using assms
proof (induction its arbitrary: m)
  case Nil
  show ?case by simp
next
  case (Cons x its)
  from consolidate_step_valid [of m x] Cons.prems obtain m1
    where "consolidate_step m x = Inr m1" and "\<forall>p\<in>set m1. valid_tier (confidence (snd p))"
    by auto
  with Cons.IH [of m1] Cons.prems show ?case
    by auto
qed

lemma consolidate_items_valid:
  assumes "\<forall>i\<in>set its. valid_tier (confidence i)"
  shows "\<exists>out. consolidate_items its = Inr out"
proof -
  from consolidate_loop_valid [of "[]" its] assms obtain m where "consolidate_loop [] its = Inr m"
    by auto
  then show ?thesis
    by (simp add: consolidate_items_def)
qed

subsection \<open>Inputs with pairwise distinct keys\<close>

lemma update_absent: "k \<notin> fst ` set m \<Longrightarrow> AList.update k v m = m @ [(k, v)]"
  by (induction m) auto

lemma consolidate_loop_distinct:
  "distinct (map item_key its) \<Longrightarrow> consolidate_loop [] its = Inr (map (\<lambda>i. (item_key i, i)) its)"
proof (induction its rule: rev_induct)
  case Nil
  show ?case by simp
next
  case (snoc x xs)
  let ?m = "map (\<lambda>i. (item_key i, i)) xs"
  from snoc have loop: "consolidate_loop [] xs = Inr ?m" and fresh: "item_key x \<notin> item_key ` set xs"
    by simp_all
  have fst: "fst ` set ?m = item_key ` set xs"
    by force
  with fresh have "map_of ?m (item_key x) = None"
    by (simp add: map_of_eq_None_iff)
  then have "consolidate_step ?m x = Inr (AList.update (item_key x) x ?m)"
    by (rule consolidate_step_new)
  also have "AList.update (item_key x) x ?m = ?m @ [(item_key x, x)]"
    using fresh fst by (intro update_absent) simp
  finally show ?case
    by (simp add: consolidate_loop_snoc loop)
qed

lemma consolidate_items_distinct:
  "distinct (map item_key its) \<Longrightarrow> consolidate_items its = Inr its"
  by (simp add: consolidate_items_def consolidate_loop_distinct comp_def)

lemma output_keys:
  assumes "consolidate_items its = Inr out"
  shows "map item_key out = first_occurrences (map item_key its)"
proof -
  have "item_key (the (merged (occurrences k its))) = k" if "k \<in> set (map item_key its)" for k
  proof -
    from that have "occurrences k its \<noteq> []"
      by (simp add: occurrences_empty_iff)
    then obtain f later where fl: "occurrences k its = f # later"
      by (cases "occurrences k its") auto
    then have "f \<in> set (occurrences k its)"
      by simp
    then have "item_key f = k"
      by (simp add: occurrences_def)
    with fl show ?thesis by simp
  qed
  then have "map (\<lambda>k. item_key (the (merged (occurrences k its)))) (first_occurrences (map item_key its))
      = first_occurrences (map item_key its)"
    by (intro map_idI) simp
  then show ?thesis
    by (simp add: consolidate_items_eq [OF assms] comp_def)
qed

subsection \<open>Inputs with a single key\<close>

lemma first_occurrences_const:
  assumes "xs \<noteq> []" and "\<forall>x\<in>set xs. x = a"
  shows "first_occurrences xs = [a]"
proof (cases xs)
  case Nil
  with assms show ?thesis by simp
next
  case (Cons x xs')
  with assms have "x = a" and "\<forall>y\<in>set xs'. \<not> y \<noteq> x"
    by simp_all
  then have "filter (\<lambda>y. y \<noteq> x) xs' = []"
    by (simp only: filter_empty_conv)
  with Cons \<open>x = a\<close> show ?thesis by simp
qed

lemma consolidate_single_key:
  assumes "its \<noteq> []" and "\<forall>i\<in>set its. item_key i = k"
    and "\<forall>i\<in>set its. valid_tier (confidence i)"
  shows "\<exists>r. consolidate_items its = Inr [r]
           \<and> quantity r = quantity (hd its) + int (length its) - 1
           \<and> confidence r \<in> confidence ` set its
           \<and> level (confidence r) = Max (level ` confidence ` set its)"
proof -
  from consolidate_items_valid [OF assms(3)] obtain out where out: "consolidate_items its = Inr out"
    by blast
  from assms(1,2) have keys: "first_occurrences (map item_key its) = [k]"
    by (intro first_occurrences_const) auto
  from assms(2) have occ: "occurrences k its = its"
    by (simp add: occurrences_def)
  from assms(1) obtain f later where its: "its = f # later"
    by (cases its) auto
  from consolidate_items_eq [OF out] have "out = [the (merged its)]"
    by (simp only: keys list.map occ)
  then have "out = [the (merged (f # later))]"
    by (simp only: its)
  then have "out = [f\<lparr>quantity := quantity f + int (length later),
       confidence := foldl higher_tier (confidence f) (map confidence later)\<rparr>]"
    by simp
  moreover have "foldl higher_tier (confidence f) (map confidence later) \<in> confidence ` set its"
    using foldl_higher_tier_mem [of "confidence f" "map confidence later"] by (simp add: its)
  moreover have "level (foldl higher_tier (confidence f) (map confidence later))
      = Max (level ` confidence ` set its)"
    by (simp add: level_foldl_higher_tier its image_image)
  ultimately show ?thesis
    using out by (simp add: its)
qed

subsection \<open>Keys and first occurrences\<close>

lemma merged_fields:
  assumes "r = f\<lparr>quantity := q, confidence := c\<rparr>"
  shows "quantity r = q" and "confidence r = c"
    and "name r = name f" and "category r = category f" and "description r = description f"
    and "condition r = condition f" and "aiGenerated r = aiGenerated f"
    and "sourcePhoto r = sourcePhoto f"
    and "item_key r = item_key f" and "consolidation_key r = consolidation_key f"
  by (simp_all add: assms)

lemma sharing_key_occurrences:
  assumes "\<forall>a\<in>set its. \<forall>b\<in>set its. item_key a = item_key b \<longrightarrow> consolidation_key a = consolidation_key b"
    and "f \<in> set its" and "consolidation_key r = consolidation_key f"
  shows "sharing_key r its = occurrences (item_key r) its"
  unfolding sharing_key_def occurrences_def
proof (rule filter_cong [OF refl])
  fix i assume "i \<in> set its"
  with assms show "(consolidation_key i = consolidation_key r) = (item_key i = item_key r)"
    by (metis same_consolidation_key)
qed

lemma find_finer:
  assumes "find P xs = Some f" and "Q f" and "\<And>x. Q x \<Longrightarrow> P x"
  shows "find Q xs = Some f"
  using assms(1,2)
proof (induction xs)
  case Nil
  then show ?case by simp
next
  case (Cons x xs)
  show ?case
  proof (cases "P x")
    case True
    with Cons.prems show ?thesis by simp
  next
    case False
    with assms(3) have "\<not> Q x" by blast
    with False Cons show ?thesis by simp
  qed
qed

lemma output_first_occurrence:
  assumes "consolidate_items its = Inr out" and "r \<in> set out"
  obtains f later where "occurrences (item_key r) its = f # later"
    and "find (\<lambda>i. consolidation_key i = consolidation_key r) its = Some f"
    and "r = f\<lparr>quantity := quantity f + int (length later),
               confidence := foldl higher_tier (confidence f) (map confidence later)\<rparr>"
proof -
  from output_representative [OF assms] obtain f later
    where occ: "occurrences (item_key r) its = f # later"
      and r: "r = f\<lparr>quantity := quantity f + int (length later),
               confidence := foldl higher_tier (confidence f) (map confidence later)\<rparr>"
    by blast
  from occ have "find (\<lambda>i. item_key i = item_key r) its = Some f"
    by (simp add: find_filter_conv occurrences_def)
  moreover from merged_fields(10) [OF r] have "consolidation_key f = consolidation_key r"
    by simp
  ultimately have "find (\<lambda>i. consolidation_key i = consolidation_key r) its = Some f"
    by (rule find_finer) (rule same_consolidation_key)
  with occ r that show thesis
    by blast
qed

subsection \<open>Tiers never fall\<close>

lemma consolidate_step_tier:
  assumes "consolidate_step m x = Inr m'" and "map_of m k = Some r"
  shows "\<exists>r'. map_of m' k = Some r' \<and> level (confidence r) \<le> level (confidence r')
           \<and> (confidence r' \<noteq> confidence r \<longrightarrow>
                item_key x = k \<and> confidence r' = confidence x
                \<and> level (confidence r) < level (confidence x))"
proof (cases "map_of m (item_key x)")
  case None
  with assms(2) have "k \<noteq> item_key x"
    by auto
  moreover from None assms(1) have "m' = AList.update (item_key x) x m"
    by (simp add: consolidate_step_new)
  ultimately have "map_of m' k = Some r"
    using assms(2) by (simp add: update_conv')
  then show ?thesis
    by simp
next
  case (Some rep)
  let ?rep' = "rep\<lparr>quantity := quantity rep + 1,
                    confidence := higher_tier (confidence rep) (confidence x)\<rparr>"
  from consolidate_step_present(1) [OF Some assms(1)]
  have m': "m' = AList.update (item_key x) ?rep' m" .
  show ?thesis
  proof (cases "k = item_key x")
    case True
    with Some assms(2) have "rep = r"
      by simp
    with True have "map_of m' k = Some (r\<lparr>quantity := quantity r + 1,
                    confidence := higher_tier (confidence r) (confidence x)\<rparr>)"
      by (simp add: m' update_conv')
    with True show ?thesis
      by (auto simp: higher_tier_def)
  next
    case False
    with assms(2) have "map_of m' k = Some r"
      by (simp add: m' update_conv')
    then show ?thesis
      by simp
  qed
qed

subsection \<open>Order of the consolidation keys\<close>

lemma update_present_proj:
  assumes "map_of m k = Some v" and "p v' = p v"
  shows "map (\<lambda>e. p (snd e)) (AList.update k v' m) = map (\<lambda>e. p (snd e)) m"
  using assms by (induction m) (auto split: if_splits)

lemma loop_consolidation_keys:
  "consolidate_loop [] its = Inr m \<Longrightarrow>
     subseq (map (\<lambda>e. consolidation_key (snd e)) m) (first_occurrences (map consolidation_key its))"
proof (induction its arbitrary: m rule: rev_induct)
  case Nil
  then show ?case by simp
next
  case (snoc x xs)
  from snoc.prems obtain m0 where m0: "consolidate_loop [] xs = Inr m0"
    and step: "consolidate_step m0 x = Inr m"
    by (auto simp: consolidate_loop_snoc split: sum.splits)
  from loop_invariant [OF m0] have keys: "map fst m0 = first_occurrences (map item_key xs)"
    by simp
  note IH = snoc.IH [OF m0]
  show ?case
  proof (cases "map_of m0 (item_key x)")
    case None
    then have absent: "item_key x \<notin> fst ` set m0"
      by (simp add: map_of_eq_None_iff)
    from None step have "m = AList.update (item_key x) x m0"
      by (simp add: consolidate_step_new)
    with absent have m: "m = m0 @ [(item_key x, x)]"
      by (simp add: update_absent)
    from absent keys have "item_key x \<notin> item_key ` set xs"
      by (metis list.set_map set_first_occurrences)
    then have "consolidation_key x \<notin> consolidation_key ` set xs"
      by (metis (no_types, lifting) image_iff same_consolidation_key)
    then have "first_occurrences (map consolidation_key (xs @ [x]))
        = first_occurrences (map consolidation_key xs) @ [consolidation_key x]"
      by (simp add: first_occurrences_snoc)
    with IH show ?thesis
      by (simp add: m subseq_append)
  next
    case (Some rep)
    from consolidate_step_present(1) [OF Some step]
    have "m = AList.update (item_key x)
                (rep\<lparr>quantity := quantity rep + 1,
                     confidence := higher_tier (confidence rep) (confidence x)\<rparr>) m0" .
    with Some have "map (\<lambda>e. consolidation_key (snd e)) m = map (\<lambda>e. consolidation_key (snd e)) m0"
      by (simp add: update_present_proj)
    moreover from IH have "subseq (map (\<lambda>e. consolidation_key (snd e)) m0)
        (first_occurrences (map consolidation_key (xs @ [x])))"
      by (simp add: first_occurrences_snoc subseq_rev_drop_many)
    ultimately show ?thesis
      by simp
  qed
qed

section \<open>Facts about the handler\<close>

lemma built_item_valid: "valid_tier (confidence (map_detection_to_item p det url))"
  by (simp add: map_detection_to_item_def valid_tier_iff)

lemma photo_items_valid:
  "photo_items env url w = (r, w') \<Longrightarrow> \<forall>i\<in>set (items_of r). valid_tier (confidence i)"
  by (auto simp: photo_items_def items_of_def built_item_valid split: prod.splits sum.splits)

lemma photo_results_valid:
  "\<forall>r\<in>set (photo_results env urls w). \<forall>i\<in>set (items_of r). valid_tier (confidence i)"
proof (induction urls arbitrary: w)
  case Nil
  show ?case by simp
next
  case (Cons u urls)
  obtain r w' where r: "photo_items env u w = (r, w')"
    by (cases "photo_items env u w")
  with photo_items_valid [OF r] Cons [of w'] show ?case
    by simp
qed

lemma collect_items_results:
  "\<exists>w'. collect_items env acc urls w = (acc @ concat (map items_of (photo_results env urls w)), w')"
proof (induction urls arbitrary: acc w)
  case Nil
  show ?case by simp
next
  case (Cons u urls)
  obtain r w1 where r: "photo_items env u w = (r, w1)"
    by (cases "photo_items env u w")
  show ?case
  proof (cases r)
    case (Inl e)
    with r Cons [of acc w1] show ?thesis
      by (simp add: items_of_def)
  next
    case (Inr its)
    with r Cons [of "acc @ its" w1] show ?thesis
      by (simp add: items_of_def)
  qed
qed

section \<open>Facts about the thresholds\<close>

lemma float_val_scaled:
  assumes "- 53 \<le> e"
  shows "float_val m e = of_int (m * 2 ^ nat (e + 53)) / 2 ^ 53"
proof (cases "0 \<le> e")
  case True
  then have "nat (e + 53) = nat e + 53"
    by simp
  with True show ?thesis
    by (simp add: float_val_def power_add)
next
  case False
  with assms have "nat (- e) + nat (e + 53) = 53"
    by simp
  then have pw: "(2::real) ^ nat (- e) * 2 ^ nat (e + 53) = 2 ^ 53"
    by (metis power_add)
  have "real_of_int m / 2 ^ nat (- e)
      = real_of_int m * 2 ^ nat (e + 53) / (2 ^ nat (- e) * 2 ^ nat (e + 53))"
    by simp
  also have "\<dots> = of_int (m * 2 ^ nat (e + 53)) / 2 ^ 53"
    by (simp only: pw of_int_mult of_int_power of_int_numeral)
  finally show ?thesis
    using False by (simp only: float_val_def if_False)
qed

lemma float_val_small:
  assumes "\<bar>m\<bar> < 2 ^ 53" and "e < - 53"
  shows "float_val m e < 1 / 2"
proof -
  from assms(2) have "54 \<le> nat (- e)"
    by simp
  then have "(2::real) ^ 54 \<le> 2 ^ nat (- e)"
    by (intro power_increasing) simp_all
  moreover from assms(1) have "real_of_int m < 2 ^ 53"
    by (metis abs_less_iff of_int_less_numeral_power_cancel_iff)
  ultimately have "real_of_int m * 2 < 2 ^ nat (- e)"
    by simp
  then have "real_of_int m / 2 ^ nat (- e) < 1 / 2"
    by (simp add: field_simps)
  with assms(2) show ?thesis
    by (simp add: float_val_def)
qed

text \<open>No binary64 number lies between four fifths and the literal \<open>0.8\<close>.\<close>

lemma ge_literal_0_8:
  assumes "binary64 (Finite m e)"
  shows "float_ge (Finite m e) literal_0_8 \<longleftrightarrow> 8 / 10 \<le> float_val m e"
proof (cases "- 53 \<le> e")
  case True
  define N where "N = m * 2 ^ nat (e + 53)"
  have val: "float_val m e = of_int N / 2 ^ 53"
    unfolding N_def using True by (rule float_val_scaled)
  have lit: "float_val 7205759403792794 (- 53) = 7205759403792794 / 2 ^ 53"
    by (simp add: float_val_def)
  have "float_ge (Finite m e) literal_0_8 \<longleftrightarrow> 7205759403792794 \<le> real_of_int N"
    unfolding literal_0_8_def float_ge.simps val lit
    by (simp add: divide_le_cancel)
  also have "\<dots> \<longleftrightarrow> 7205759403792794 \<le> N"
    by linarith
  also have "\<dots> \<longleftrightarrow> 36028797018963968 \<le> 5 * N"
    by linarith
  also have "\<dots> \<longleftrightarrow> 36028797018963968 \<le> 5 * real_of_int N"
    by linarith
  also have "\<dots> \<longleftrightarrow> 8 / 10 \<le> float_val m e"
    unfolding val by (simp add: field_simps)
  finally show ?thesis .
next
  case False
  with assms have "float_val m e < 1 / 2"
    by (intro float_val_small) simp_all
  moreover have "float_val 7205759403792794 (- 53) > 1 / 2"
    by (simp add: float_val_def)
  ultimately show ?thesis
    by (simp add: literal_0_8_def)
qed

lemma ge_literal_0_5: "float_ge (Finite m e) literal_0_5 \<longleftrightarrow> 5 / 10 \<le> float_val m e"
  by (simp add: literal_0_5_def float_val_def)

lemma float_ge_0_8:
  "binary64 s \<Longrightarrow> float_ge s literal_0_8 \<longleftrightarrow> at_least s (8 / 10)"
  by (cases s) (simp_all add: ge_literal_0_8, simp_all add: literal_0_8_def)

lemma float_ge_0_5: "float_ge s literal_0_5 \<longleftrightarrow> at_least s (5 / 10)"
  by (cases s) (simp_all add: ge_literal_0_5, simp_all add: literal_0_5_def)

lemma at_least_below: "at_least s t \<Longrightarrow> \<not> at_least s u \<Longrightarrow> below s u"
  by (cases s) auto

lemma below_not_at_least: "below s t \<Longrightarrow> \<not> at_least s t"
  by (cases s) auto

lemma at_least_mono: "at_least s t \<Longrightarrow> u \<le> t \<Longrightarrow> at_least s u"
  by (cases s) auto

section \<open>Keys of built items\<close>

text \<open>
  A category that contains no hyphen can be read back from the dictionary key, and so can
  the lowercased name: for such items the dictionary key and the consolidation key
  determine each other. Every category of the table, and the fallback category, is free
  of hyphens, so this covers all items the item builder makes.
\<close>

lemma category_of_item_key:
  assumes "CHR ''-'' \<notin> set (category a)"
  shows "takeWhile (\<lambda>c. c \<noteq> CHR ''-'') (rev (item_key a)) = rev (category a)"
proof -
  let ?rest = "CHR ''-'' # rev (str_lower (name a))"
  have "rev (item_key a) = rev (category a) @ ?rest"
    by (simp add: item_key_def)
  moreover have "takeWhile (\<lambda>c. c \<noteq> CHR ''-'') (rev (category a) @ ?rest)
      = rev (category a) @ takeWhile (\<lambda>c. c \<noteq> CHR ''-'') ?rest"
  proof (rule takeWhile_append2)
    fix c assume "c \<in> set (rev (category a))"
    with assms show "c \<noteq> CHR ''-''" by auto
  qed
  ultimately show ?thesis
    by simp
qed

lemma item_key_inj:
  assumes "CHR ''-'' \<notin> set (category a)" and "CHR ''-'' \<notin> set (category b)"
    and "item_key a = item_key b"
  shows "consolidation_key a = consolidation_key b"
proof -
  from assms have "rev (category a) = rev (category b)"
    by (metis category_of_item_key)
  then have cat: "category a = category b"
    by simp
  with assms(3) have "str_lower (name a) = str_lower (name b)"
    by (simp add: item_key_def)
  with cat show ?thesis
    by (simp add: consolidation_key_def)
qed

lemma category_table_no_hyphen: "list_all (\<lambda>p. CHR ''-'' \<notin> set (snd p)) category_table"
  by code_simp

lemma category_mapping_no_hyphen:
  assumes "CATEGORY_MAPPING k = Some c"
  shows "CHR ''-'' \<notin> set c"
proof -
  from assms have "(k, c) \<in> set category_table"
    by (simp add: CATEGORY_MAPPING_def map_of_SomeD)
  with category_table_no_hyphen show ?thesis
    by (auto simp: list_all_iff)
qed

lemma built_item_no_hyphen: "CHR ''-'' \<notin> set (category (map_detection_to_item p det url))"
  by (auto simp: map_detection_to_item_def category_mapping_no_hyphen split: option.splits)

lemma consolidate_items_distinct_pairs:
  assumes "\<forall>i\<in>set its. CHR ''-'' \<notin> set (category i)"
    and "distinct (map consolidation_key its)"
  shows "consolidate_items its = Inr its"
proof -
  from assms(2) have pairs: "inj_on consolidation_key (set its)" and its: "distinct its"
    by (simp_all add: distinct_map)
  have "inj_on item_key (set its)"
  proof (rule inj_onI)
    fix a b assume a: "a \<in> set its" and b: "b \<in> set its" and "item_key a = item_key b"
    with assms(1) have "consolidation_key a = consolidation_key b"
      by (intro item_key_inj) simp_all
    from inj_onD [OF pairs this a b] show "a = b" .
  qed
  with its have "distinct (map item_key its)"
    by (simp add: distinct_map)
  then show ?thesis
    by (rule consolidate_items_distinct)
qed

section \<open>The examples, evaluated\<close>

lemma example_keys:
  "item_key laptop_photo1 = ''laptop-electronics''"
  "item_key laptop_photo2 = ''laptop-electronics''"
  "item_key mouse_photo2 = ''mouse-electronics''"
  "item_key bottle_crate = ''bottle-kitchen''"
  "item_key bottle_single = ''bottle-kitchen''"
  "item_key tshirt = ''t-shirt-clothing''"
  "item_key tee = ''t-shirt-clothing''"
  by code_simp+

lemma example_consolidation_keys:
  "consolidation_key laptop_photo1 = (''laptop'', ''electronics'')"
  "consolidation_key laptop_photo2 = (''laptop'', ''electronics'')"
  "consolidation_key mouse_photo2 = (''mouse'', ''electronics'')"
  "consolidation_key bottle_crate = (''bottle'', ''kitchen'')"
  "consolidation_key bottle_single = (''bottle'', ''kitchen'')"
  "consolidation_key tshirt = (''t-shirt'', ''clothing'')"
  "consolidation_key tee = (''t'', ''shirt-clothing'')"
  by code_simp+

lemma example_fields:
  "quantity laptop_photo1 = 1" "quantity laptop_photo2 = 1" "quantity mouse_photo2 = 1"
  "quantity bottle_crate = 5" "quantity bottle_single = 1"
  "confidence laptop_photo1 = ''medium''" "confidence laptop_photo2 = ''high''"
  "confidence mouse_photo2 = ''high''" "confidence bottle_crate = ''low''"
  "confidence bottle_single = ''low''"
  by (simp_all add: laptop_photo1_def laptop_photo2_def mouse_photo2_def bottle_crate_def
        bottle_single_def)

lemma example_runs:
  "consolidate_items [laptop_photo1, mouse_photo2, laptop_photo2]
     = Inr [laptop_photo1\<lparr>quantity := 2, confidence := ''high''\<rparr>, mouse_photo2]"
  "consolidate_items [bottle_single, bottle_crate, mouse_photo2]
     = Inr [bottle_single\<lparr>quantity := 2\<rparr>, mouse_photo2]"
  "consolidate_items [bottle_crate] = Inr [bottle_crate]"
  "consolidate_items [bottle_crate, bottle_single] = Inr [bottle_crate\<lparr>quantity := 6\<rparr>]"
  "consolidate_items [bottle_single, bottle_crate] = Inr [bottle_single\<lparr>quantity := 2\<rparr>]"
  "consolidate_items [tshirt, tee] = Inr [tshirt\<lparr>quantity := 2\<rparr>]"
  by code_simp+

lemma offline_results:
  "photo_results offline [''http://localhost:3000/uploads/photo1.jpg'',
       ''http://localhost:3000/uploads/photo2.jpg''] ()
     = [Inl (HTTPException 400 ''Failed to download image: connection refused''),
        Inl (HTTPException 400 ''Failed to download image: connection refused'')]"
  by (simp add: photo_items_def download_image_def offline_def)

lemma photo1_only_results:
  "photo_results photo1_only [''http://localhost:3000/uploads/photo1.jpg'',
       ''http://localhost:3000/uploads/photo2.jpg''] ()
     = [Inr [built_laptop],
        Inl (HTTPException 400 ''Failed to download image: Failed to download'')]"
  by code_simp

section \<open>The claims\<close>

subsection \<open>C1: items that all share one key\<close>

text \<open>
  Claim C1. A list of \<open>N \<ge> 1\<close> items that all have the same consolidation key, each
  with quantity 1 and with one of the three tiers, consolidates into exactly one item.
  Its quantity is \<open>N\<close>, and its tier is the highest of the input tiers under
  \<open>low < medium < high\<close>: the tier of some input item, of the maximal level.
\<close>

theorem consolidate_same_key:
  assumes "its \<noteq> []"
    and "\<forall>i\<in>set its. consolidation_key i = k"
    and "\<forall>i\<in>set its. quantity i = 1"
    and "\<forall>i\<in>set its. valid_tier (confidence i)"
  shows "\<exists>r. consolidate_items its = Inr [r]
           \<and> quantity r = int (length its)
           \<and> confidence r \<in> confidence ` set its
           \<and> level (confidence r) = Max (level ` confidence ` set its)"
proof -
  from assms(2) have "\<forall>i\<in>set its. item_key i = fst k @ ''-'' @ snd k"
    by (simp add: item_key_consolidation_key)
  from consolidate_single_key [OF assms(1) this assms(4)] obtain r
    where r: "consolidate_items its = Inr [r]"
      "quantity r = quantity (hd its) + int (length its) - 1"
      "confidence r \<in> confidence ` set its"
      "level (confidence r) = Max (level ` confidence ` set its)"
    by blast
  from assms(1,3) have "quantity (hd its) = 1"
    by simp
  with r show ?thesis
    by simp
qed
text \<open>Two laptops, seen with medium and with high confidence, become one laptop of quantity 2 and tier high.\<close>

theorem consolidate_same_key_witness:
  "[laptop_photo1, laptop_photo2] \<noteq> []
   \<and> consolidation_key laptop_photo1 = (''laptop'', ''electronics'')
   \<and> consolidation_key laptop_photo2 = (''laptop'', ''electronics'')
   \<and> quantity laptop_photo1 = 1 \<and> quantity laptop_photo2 = 1
   \<and> valid_tier (confidence laptop_photo1) \<and> valid_tier (confidence laptop_photo2)
   \<and> (\<exists>r. consolidate_items [laptop_photo1, laptop_photo2] = Inr [r]
          \<and> quantity r = 2 \<and> confidence r = ''high'')"
proof -
  have hyps: "[laptop_photo1, laptop_photo2] \<noteq> []"
    "\<forall>i\<in>set [laptop_photo1, laptop_photo2]. consolidation_key i = (''laptop'', ''electronics'')"
    "\<forall>i\<in>set [laptop_photo1, laptop_photo2]. quantity i = 1"
    "\<forall>i\<in>set [laptop_photo1, laptop_photo2]. valid_tier (confidence i)"
    by (simp_all add: example_consolidation_keys example_fields valid_tier_iff)
  from consolidate_same_key [OF hyps] obtain r
    where r: "consolidate_items [laptop_photo1, laptop_photo2] = Inr [r]"
      "quantity r = int (length [laptop_photo1, laptop_photo2])"
      "confidence r \<in> confidence ` set [laptop_photo1, laptop_photo2]"
      "level (confidence r) = Max (level ` confidence ` set [laptop_photo1, laptop_photo2])"
    by blast
  from r(4) have "level (confidence r) = 3"
    by (simp add: example_fields)
  with r(3) have "confidence r = ''high''"
    by (auto simp: example_fields)
  with r(1,2) hyps show ?thesis
    by simp
qed
subsection \<open>C2: items with pairwise distinct keys\<close>

text \<open>
  Claim C2 says that items whose consolidation keys (lowercased name, category) are
  pairwise distinct come back one by one, unchanged. The dictionary key joins the two
  parts with a hyphen, so two different pairs can give the same dictionary key: a
  \<open>T-Shirt\<close> in category \<open>clothing\<close> and a \<open>T\<close> in category \<open>shirt-clothing\<close>
  both have the key \<open>t-shirt-clothing\<close>. The consolidator merges them into one item of
  quantity 2, although their consolidation keys differ.
\<close>

theorem consolidate_key_collision:
  "consolidation_key tshirt \<noteq> consolidation_key tee
   \<and> consolidate_items [tshirt, tee] = Inr [tshirt\<lparr>quantity := 2\<rparr>]"
  by (simp add: example_consolidation_keys example_runs)
subsection \<open>C3: quantities count occurrences\<close>

text \<open>
  Claim C3, amended. Let no two input items with different consolidation keys have the
  same dictionary key. Then the input items that share the consolidation key of an
  output item are a first item followed by later ones, and the output item's quantity is
  the quantity of the first item plus the number of later items: each later duplicate
  adds exactly 1, whatever its own quantity field holds. Where the first item has
  quantity 1, the output quantity is the number of input items that share the key.
\<close>

theorem consolidate_counts_occurrences:
  assumes "consolidate_items its = Inr out" and "r \<in> set out"
    and "\<forall>a\<in>set its. \<forall>b\<in>set its. item_key a = item_key b \<longrightarrow> consolidation_key a = consolidation_key b"
  shows "\<exists>f later. sharing_key r its = f # later
           \<and> quantity r = quantity f + int (length later)
           \<and> (quantity f = 1 \<longrightarrow> quantity r = int (length (sharing_key r its)))"
proof -
  from output_first_occurrence [OF assms(1,2)] obtain f later
    where occ: "occurrences (item_key r) its = f # later"
      and r: "r = f\<lparr>quantity := quantity f + int (length later),
               confidence := foldl higher_tier (confidence f) (map confidence later)\<rparr>"
    by blast
  from occ have "f \<in> set (occurrences (item_key r) its)"
    by simp
  then have f: "f \<in> set its"
    by (simp add: occurrences_def)
  from r have "consolidation_key r = consolidation_key f"
    by (rule merged_fields)
  with assms(3) f have "sharing_key r its = occurrences (item_key r) its"
    by (rule sharing_key_occurrences)
  with occ have sh: "sharing_key r its = f # later"
    by simp
  from r have q: "quantity r = quantity f + int (length later)"
    by (rule merged_fields)
  have "sharing_key r its = f # later \<and> quantity r = quantity f + int (length later)
      \<and> (quantity f = 1 \<longrightarrow> quantity r = int (length (sharing_key r its)))"
    by (simp add: sh q)
  then show ?thesis
    by blast
qed
text \<open>
  A single bottle followed by a crate of five bottles and a mouse: the bottles merge into
  an item of quantity 2, the number of bottle items, not 6.
\<close>

theorem consolidate_counts_occurrences_witness:
  "consolidate_items [bottle_single, bottle_crate, mouse_photo2]
     = Inr [bottle_single\<lparr>quantity := 2\<rparr>, mouse_photo2]
   \<and> consolidation_key bottle_single = consolidation_key bottle_crate
   \<and> item_key mouse_photo2 \<noteq> item_key bottle_single
   \<and> item_key mouse_photo2 \<noteq> item_key bottle_crate
   \<and> sharing_key (bottle_single\<lparr>quantity := 2\<rparr>) [bottle_single, bottle_crate, mouse_photo2]
       = [bottle_single, bottle_crate]
   \<and> quantity bottle_single = 1 \<and> quantity bottle_crate = 5
   \<and> quantity (bottle_single\<lparr>quantity := 2\<rparr>)
       = int (length (sharing_key (bottle_single\<lparr>quantity := 2\<rparr>)
                        [bottle_single, bottle_crate, mouse_photo2]))"
proof -
  let ?its = "[bottle_single, bottle_crate, mouse_photo2]"
  let ?r = "bottle_single\<lparr>quantity := 2\<rparr>"
  have run: "consolidate_items ?its = Inr [?r, mouse_photo2]"
    by (rule example_runs)
  have mem: "?r \<in> set [?r, mouse_photo2]"
    by simp
  have keys: "\<forall>a\<in>set ?its. \<forall>b\<in>set ?its.
      item_key a = item_key b \<longrightarrow> consolidation_key a = consolidation_key b"
    by (simp add: example_keys example_consolidation_keys)
  have sh: "sharing_key ?r ?its = [bottle_single, bottle_crate]"
    by (simp add: sharing_key_def example_consolidation_keys)
  from consolidate_counts_occurrences [OF run mem keys] obtain f later
    where "sharing_key ?r ?its = f # later"
      and "quantity f = 1 \<longrightarrow> quantity ?r = int (length (sharing_key ?r ?its))"
    by blast
  with sh have "quantity ?r = int (length (sharing_key ?r ?its))"
    by (simp add: example_fields)
  with run sh show ?thesis
    by (simp add: example_keys example_consolidation_keys example_fields)
qed
text \<open>
  As the claim is stated, for every input sequence, it fails where the first item of a
  key carries a quantity other than 1: a crate of five bottles alone keeps quantity 5,
  while one input item shares its key.
\<close>

theorem consolidate_counts_occurrences_counterexample:
  "consolidate_items [bottle_crate] = Inr [bottle_crate]
   \<and> quantity bottle_crate = 5
   \<and> length (sharing_key bottle_crate [bottle_crate]) = 1"
  by (simp add: example_runs example_fields sharing_key_def)
subsection \<open>C4: the multi-photo handler always answers\<close>

text \<open>
  Claim C4. Whatever the fetches and the detector do, \<open>analyze_multiple_photos\<close> returns
  a response, never an exception. Its \<open>photosAnalyzed\<close> is the number of URLs in the
  request, its items are the consolidation of the items of the photos that succeeded, and
  they are empty when every photo failed.
\<close>

theorem analyze_multiple_photos_succeeds:
  "\<exists>its w'. analyze_multiple_photos env request w =
       (Inr \<lparr>items = its, photosAnalyzed = int (length (photoUrls request))\<rparr>, w')
     \<and> consolidate_items (concat (map items_of (photo_results env (photoUrls request) w))) = Inr its
     \<and> ((\<forall>r\<in>set (photo_results env (photoUrls request) w). isl r) \<longrightarrow> its = [])"
proof -
  let ?results = "photo_results env (photoUrls request) w"
  let ?all = "concat (map items_of ?results)"
  from collect_items_results [of env "[]" "photoUrls request" w] obtain w'
    where collect: "collect_items env [] (photoUrls request) w = (?all, w')"
    by auto
  have "\<forall>i\<in>set ?all. valid_tier (confidence i)"
    using photo_results_valid [of env "photoUrls request" w] by auto
  from consolidate_items_valid [OF this] obtain its where its: "consolidate_items ?all = Inr its"
    by blast
  have "its = []" if "\<forall>r\<in>set ?results. isl r"
  proof -
    from that have "\<forall>r\<in>set ?results. items_of r = []"
      by (auto simp: items_of_def split: sum.splits)
    then have "?all = []"
      by simp
    with its show ?thesis
      by (simp add: consolidate_items_def)
  qed
  with collect its show ?thesis
    by (simp add: analyze_multiple_photos_def)
qed
text \<open>
  Two URLs with no network: a response with no items and \<open>photosAnalyzed = 2\<close>. Two URLs
  of which only the first can be fetched: the laptop of the first photo, and
  \<open>photosAnalyzed = 2\<close> again.
\<close>

theorem analyze_multiple_photos_succeeds_witness:
  "photo_results offline [''http://localhost:3000/uploads/photo1.jpg'',
       ''http://localhost:3000/uploads/photo2.jpg''] ()
     = [Inl (HTTPException 400 ''Failed to download image: connection refused''),
        Inl (HTTPException 400 ''Failed to download image: connection refused'')]
   \<and> analyze_multiple_photos offline
        \<lparr>photoUrls = [''http://localhost:3000/uploads/photo1.jpg'',
                      ''http://localhost:3000/uploads/photo2.jpg'']\<rparr> ()
     = (Inr \<lparr>items = [], photosAnalyzed = 2\<rparr>, ())
   \<and> analyze_multiple_photos photo1_only
        \<lparr>photoUrls = [''http://localhost:3000/uploads/photo1.jpg'',
                      ''http://localhost:3000/uploads/photo2.jpg'']\<rparr> ()
     = (Inr \<lparr>items = [built_laptop], photosAnalyzed = 2\<rparr>, ())"
proof -
  let ?urls = "[''http://localhost:3000/uploads/photo1.jpg'',
                ''http://localhost:3000/uploads/photo2.jpg'']"
  let ?request = "\<lparr>photoUrls = ?urls\<rparr>"
  have urls: "photoUrls ?request = ?urls"
    by simp
  from analyze_multiple_photos_succeeds [of offline ?request "()"] obtain its w'
    where response: "analyze_multiple_photos offline ?request () =
        (Inr \<lparr>items = its, photosAnalyzed = int (length (photoUrls ?request))\<rparr>, w')"
      and failed: "(\<forall>r\<in>set (photo_results offline (photoUrls ?request) ()). isl r) \<longrightarrow> its = []"
    by blast
  from failed have "its = []"
    unfolding urls offline_results by simp
  with response have offline: "analyze_multiple_photos offline ?request ()
      = (Inr \<lparr>items = [], photosAnalyzed = 2\<rparr>, ())"
    unfolding urls by simp
  from analyze_multiple_photos_succeeds [of photo1_only ?request "()"] obtain its' w''
    where response': "analyze_multiple_photos photo1_only ?request () =
        (Inr \<lparr>items = its', photosAnalyzed = int (length (photoUrls ?request))\<rparr>, w'')"
      and consolidated: "consolidate_items
        (concat (map items_of (photo_results photo1_only (photoUrls ?request) ()))) = Inr its'"
    by blast
  have "consolidate_items [built_laptop] = Inr [built_laptop]"
    by (simp add: consolidate_items_distinct)
  with consolidated have "its' = [built_laptop]"
    unfolding urls photo1_only_results by (simp add: items_of_def)
  with response' have "analyze_multiple_photos photo1_only ?request ()
      = (Inr \<lparr>items = [built_laptop], photosAnalyzed = 2\<rparr>, ())"
    unfolding urls by simp
  with offline offline_results show ?thesis
    by simp
qed

subsection \<open>C5: the tier of a score\<close>

text \<open>
  Claim C5. For every binary64 score, the item builder assigns the tier \<open>high\<close> exactly
  when the score is at least 0.8, \<open>medium\<close> exactly when it is at least 0.5 and below 0.8,
  and \<open>low\<close> exactly when neither holds (which includes NaN). The thresholds here are
  the real numbers four fifths and one half; the source compares with the floats nearest
  to them.
\<close>

theorem confidence_tier_thresholds:
  assumes "binary64 (confidence_score det)"
  shows "(confidence (map_detection_to_item p det url) = ''high''
            \<longleftrightarrow> at_least (confidence_score det) (8 / 10))
       \<and> (confidence (map_detection_to_item p det url) = ''medium''
            \<longleftrightarrow> at_least (confidence_score det) (5 / 10) \<and> below (confidence_score det) (8 / 10))
       \<and> (confidence (map_detection_to_item p det url) = ''low''
            \<longleftrightarrow> \<not> at_least (confidence_score det) (8 / 10)
               \<and> \<not> (at_least (confidence_score det) (5 / 10) \<and> below (confidence_score det) (8 / 10)))"
proof -
  let ?s = "confidence_score det"
  have tier: "confidence (map_detection_to_item p det url) =
      (if at_least ?s (8 / 10) then ''high'' else if at_least ?s (5 / 10) then ''medium'' else ''low'')"
    using assms by (simp add: map_detection_to_item_def float_ge_0_8 float_ge_0_5)
  have "at_least ?s (5 / 10)" if "at_least ?s (8 / 10)"
    using that by (rule at_least_mono) simp
  moreover have "below ?s (8 / 10)" if "at_least ?s (5 / 10)" "\<not> at_least ?s (8 / 10)"
    using that by (rule at_least_below)
  moreover have "\<not> at_least ?s (8 / 10)" if "below ?s (8 / 10)"
    using that by (rule below_not_at_least)
  ultimately show ?thesis
    unfolding tier by auto
qed
text \<open>
  The four boundary scores, each the float its decimal literal denotes: 0.8 is \<open>high\<close>,
  0.7999 and 0.5 are \<open>medium\<close>, 0.4999 is \<open>low\<close>.
\<close>

theorem confidence_tier_thresholds_witness:
  "binary64 literal_0_8 \<and> binary64 score_0_7999 \<and> binary64 literal_0_5 \<and> binary64 score_0_4999
   \<and> confidence (map_detection_to_item (percent offline) (laptop_detection literal_0_8) ''photo1.jpg'')
       = ''high''
   \<and> confidence (map_detection_to_item (percent offline) (laptop_detection score_0_7999) ''photo1.jpg'')
       = ''medium''
   \<and> confidence (map_detection_to_item (percent offline) (laptop_detection literal_0_5) ''photo1.jpg'')
       = ''medium''
   \<and> confidence (map_detection_to_item (percent offline) (laptop_detection score_0_4999) ''photo1.jpg'')
       = ''low''"
proof -
  have b: "binary64 (confidence_score (laptop_detection literal_0_8))"
    "binary64 (confidence_score (laptop_detection score_0_7999))"
    "binary64 (confidence_score (laptop_detection literal_0_5))"
    "binary64 (confidence_score (laptop_detection score_0_4999))"
    by (simp_all add: laptop_detection_def literal_0_8_def score_0_7999_def literal_0_5_def
          score_0_4999_def)
  have "at_least literal_0_8 (8 / 10)"
    by (simp add: literal_0_8_def float_val_def)
  with confidence_tier_thresholds [OF b(1), of "percent offline" "''photo1.jpg''"]
  have 1: "confidence (map_detection_to_item (percent offline) (laptop_detection literal_0_8)
      ''photo1.jpg'') = ''high''"
    by (simp add: laptop_detection_def)
  have "at_least score_0_7999 (5 / 10)" "below score_0_7999 (8 / 10)"
    by (simp_all add: score_0_7999_def float_val_def)
  with confidence_tier_thresholds [OF b(2), of "percent offline" "''photo1.jpg''"]
  have 2: "confidence (map_detection_to_item (percent offline) (laptop_detection score_0_7999)
      ''photo1.jpg'') = ''medium''"
    by (simp add: laptop_detection_def)
  have "at_least literal_0_5 (5 / 10)" "below literal_0_5 (8 / 10)"
    by (simp_all add: literal_0_5_def float_val_def)
  with confidence_tier_thresholds [OF b(3), of "percent offline" "''photo1.jpg''"]
  have 3: "confidence (map_detection_to_item (percent offline) (laptop_detection literal_0_5)
      ''photo1.jpg'') = ''medium''"
    by (simp add: laptop_detection_def)
  have "\<not> at_least score_0_4999 (5 / 10)" "\<not> at_least score_0_4999 (8 / 10)"
    by (simp_all add: score_0_4999_def float_val_def)
  with confidence_tier_thresholds [OF b(4), of "percent offline" "''photo1.jpg''"]
  have 4: "confidence (map_detection_to_item (percent offline) (laptop_detection score_0_4999)
      ''photo1.jpg'') = ''low''"
    by (simp add: laptop_detection_def)
  from b 1 2 3 4 show ?thesis
    by (simp add: laptop_detection_def)
qed
subsection \<open>C6: the order of the items of one key\<close>

text \<open>
  Claim C6 says that, for items that all share one consolidation key, the merged
  quantity and the merged tier are the same for every order of the items. The docstring
  of \<open>consolidate_items\<close> promises the sum of the quantities, which no order changes.
  The loop instead keeps the quantity of whichever item comes first and adds one for
  each later item. A crate of five bottles and a single bottle, one the permutation of
  the other, give quantity 6 with the crate first and quantity 2 with the single bottle
  first.
\<close>

theorem consolidate_order_dependent:
  "mset [bottle_crate, bottle_single] = mset [bottle_single, bottle_crate]
   \<and> consolidation_key bottle_crate = consolidation_key bottle_single
   \<and> valid_tier (confidence bottle_crate) \<and> valid_tier (confidence bottle_single)
   \<and> consolidate_items [bottle_crate, bottle_single] = Inr [bottle_crate\<lparr>quantity := 6\<rparr>]
   \<and> consolidate_items [bottle_single, bottle_crate] = Inr [bottle_single\<lparr>quantity := 2\<rparr>]
   \<and> quantity (bottle_crate\<lparr>quantity := 6\<rparr>) \<noteq> quantity (bottle_single\<lparr>quantity := 2\<rparr>)"
  by (simp add: example_runs example_consolidation_keys example_fields valid_tier_iff)

text \<open>
  The order is without effect where all items of the key carry one and the same
  quantity, as the items of the item builder do: then both orders run without error and
  give the same quantity and the same tier.
\<close>

lemma consolidate_equal_quantities:
  assumes "mset xs = mset ys"
    and "\<forall>i\<in>set xs. consolidation_key i = k"
    and "\<forall>i\<in>set xs. quantity i = q"
    and "\<forall>i\<in>set xs. valid_tier (confidence i)"
  shows "\<exists>out out'. consolidate_items xs = Inr out \<and> consolidate_items ys = Inr out'
           \<and> map quantity out = map quantity out' \<and> map confidence out = map confidence out'"
proof (cases "xs = []")
  case True
  with assms(1) have "ys = []" by simp
  with True show ?thesis
    by (simp add: consolidate_items_def)
next
  case False
  from assms(1) have sets: "set ys = set xs" and len: "length ys = length xs"
    by (metis mset_eq_setD, metis mset_eq_length)
  from False len have ys: "ys \<noteq> []"
    by auto
  let ?k = "fst k @ ''-'' @ snd k"
  from assms(2) have kx: "\<forall>i\<in>set xs. item_key i = ?k"
    by (simp add: item_key_consolidation_key)
  from consolidate_single_key [OF False kx assms(4)] obtain r
    where r: "consolidate_items xs = Inr [r]"
      "quantity r = quantity (hd xs) + int (length xs) - 1"
      "confidence r \<in> confidence ` set xs"
      "level (confidence r) = Max (level ` confidence ` set xs)"
    by blast
  from consolidate_single_key [of ys ?k] ys kx assms(4) sets obtain r'
    where r': "consolidate_items ys = Inr [r']"
      "quantity r' = quantity (hd ys) + int (length ys) - 1"
      "confidence r' \<in> confidence ` set ys"
      "level (confidence r') = Max (level ` confidence ` set ys)"
    by auto
  from False ys sets assms(3) have "quantity (hd xs) = q" and "quantity (hd ys) = q"
    by (metis hd_in_set)+
  with r(2) r'(2) len have "quantity r = quantity r'"
    by simp
  moreover from r(3) r'(3) sets assms(4) have "valid_tier (confidence r)" and "valid_tier (confidence r')"
    by auto
  with r(4) r'(4) sets have "confidence r = confidence r'"
    by (intro level_inj) simp_all
  ultimately show ?thesis
    using r(1) r'(1) by simp
qed

text \<open>The two laptops in either order.\<close>

lemma consolidate_equal_quantities_example:
  "mset [laptop_photo1, laptop_photo2] = mset [laptop_photo2, laptop_photo1]
   \<and> consolidation_key laptop_photo1 = (''laptop'', ''electronics'')
   \<and> consolidation_key laptop_photo2 = (''laptop'', ''electronics'')
   \<and> quantity laptop_photo1 = 1 \<and> quantity laptop_photo2 = 1
   \<and> valid_tier (confidence laptop_photo1) \<and> valid_tier (confidence laptop_photo2)
   \<and> (\<exists>out out'. consolidate_items [laptop_photo1, laptop_photo2] = Inr out
          \<and> consolidate_items [laptop_photo2, laptop_photo1] = Inr out'
          \<and> map quantity out = map quantity out' \<and> map confidence out = map confidence out')"
proof -
  have hyps: "mset [laptop_photo1, laptop_photo2] = mset [laptop_photo2, laptop_photo1]"
    "\<forall>i\<in>set [laptop_photo1, laptop_photo2]. consolidation_key i = (''laptop'', ''electronics'')"
    "\<forall>i\<in>set [laptop_photo1, laptop_photo2]. quantity i = 1"
    "\<forall>i\<in>set [laptop_photo1, laptop_photo2]. valid_tier (confidence i)"
    by (simp_all add: example_consolidation_keys example_fields valid_tier_iff)
  from consolidate_equal_quantities [OF hyps] hyps show ?thesis
    by simp
qed

subsection \<open>C7: output order\<close>

text \<open>
  Claim C7. The output lists the representatives in the order in which their keys first
  appear in the input. For the dictionary keys this is an equation: the keys of the
  output are the keys of the input in first-occurrence order. For the consolidation keys
  of the specification, the keys of the output follow one another as they do in the
  first-occurrence order of the input's consolidation keys.
\<close>

theorem consolidate_first_occurrence_order:
  assumes "consolidate_items its = Inr out"
  shows "map item_key out = first_occurrences (map item_key its)
       \<and> subseq (map consolidation_key out) (first_occurrences (map consolidation_key its))"
proof -
  from assms obtain m where m: "consolidate_loop [] its = Inr m" and out: "out = map snd m"
    by (auto simp: consolidate_items_def split: sum.splits)
  from loop_consolidation_keys [OF m] have "subseq (map consolidation_key out)
      (first_occurrences (map consolidation_key its))"
    by (simp add: out comp_def)
  with output_keys [OF assms] show ?thesis
    by simp
qed
text \<open>A laptop, a mouse and a second laptop: the laptop comes first in the output, the mouse second.\<close>

theorem consolidate_first_occurrence_order_witness:
  "consolidate_items [laptop_photo1, mouse_photo2, laptop_photo2]
     = Inr [laptop_photo1\<lparr>quantity := 2, confidence := ''high''\<rparr>, mouse_photo2]
   \<and> map item_key [laptop_photo1\<lparr>quantity := 2, confidence := ''high''\<rparr>, mouse_photo2]
       = first_occurrences (map item_key [laptop_photo1, mouse_photo2, laptop_photo2])
   \<and> subseq
        (map consolidation_key [laptop_photo1\<lparr>quantity := 2, confidence := ''high''\<rparr>, mouse_photo2])
        (first_occurrences (map consolidation_key [laptop_photo1, mouse_photo2, laptop_photo2]))"
  using consolidate_first_occurrence_order [OF example_runs(1)] example_runs(1)
  by simp
subsection \<open>C8: tiers never fall\<close>

text \<open>
  Claim C8. From any state of the dictionary and over any further items, the tier of a
  representative never falls: after the run the key still has a representative, whose
  level is at least the level before. Where its tier has changed, the new tier is the
  tier of one of the processed items with this key, and that tier ranks strictly higher
  than the old one. A run over a single item is one merge.
\<close>

theorem tier_never_lowered:
  assumes "consolidate_loop m its = Inr m'" and "map_of m k = Some r"
  shows "\<exists>r'. map_of m' k = Some r' \<and> level (confidence r) \<le> level (confidence r')
           \<and> (confidence r' \<noteq> confidence r \<longrightarrow>
                (\<exists>x\<in>set its. item_key x = k \<and> confidence r' = confidence x
                   \<and> level (confidence r) < level (confidence x)))"
  using assms
proof (induction its arbitrary: m r)
  case Nil
  then show ?case by simp
next
  case (Cons x its)
  from Cons.prems(1) obtain m1 where step: "consolidate_step m x = Inr m1"
    and loop: "consolidate_loop m1 its = Inr m'"
    by (auto split: sum.splits)
  from consolidate_step_tier [OF step Cons.prems(2)] obtain r1
    where r1: "map_of m1 k = Some r1" "level (confidence r) \<le> level (confidence r1)"
      "confidence r1 \<noteq> confidence r \<Longrightarrow>
         item_key x = k \<and> confidence r1 = confidence x \<and> level (confidence r) < level (confidence x)"
    by blast
  from Cons.IH [OF loop r1(1)] obtain r'
    where r': "map_of m' k = Some r'" "level (confidence r1) \<le> level (confidence r')"
      "confidence r' \<noteq> confidence r1 \<Longrightarrow>
         \<exists>y\<in>set its. item_key y = k \<and> confidence r' = confidence y
            \<and> level (confidence r1) < level (confidence y)"
    by blast
  have "\<exists>y\<in>set (x # its). item_key y = k \<and> confidence r' = confidence y
            \<and> level (confidence r) < level (confidence y)"
    if neq: "confidence r' \<noteq> confidence r"
  proof (cases "confidence r' = confidence r1")
    case True
    with neq r1(3) show ?thesis
      by simp
  next
    case False
    from r'(3) [OF False] obtain y where "y \<in> set its" "item_key y = k"
      "confidence r' = confidence y" "level (confidence r1) < level (confidence y)"
      by blast
    with r1(2) show ?thesis
      by force
  qed
  with r'(1,2) r1(2) show ?case
    by (meson order_trans)
qed
text \<open>Merging the laptop of high confidence into the one of medium confidence raises the tier to high.\<close>

theorem tier_never_lowered_witness:
  "consolidate_loop [(''laptop-electronics'', laptop_photo1)] [laptop_photo2]
     = Inr [(''laptop-electronics'', laptop_photo1\<lparr>quantity := 2, confidence := ''high''\<rparr>)]
   \<and> map_of [(''laptop-electronics'', laptop_photo1)] ''laptop-electronics'' = Some laptop_photo1
   \<and> confidence (laptop_photo1\<lparr>quantity := 2, confidence := ''high''\<rparr>) \<noteq> confidence laptop_photo1
   \<and> confidence (laptop_photo1\<lparr>quantity := 2, confidence := ''high''\<rparr>) = confidence laptop_photo2
   \<and> level (confidence laptop_photo1) < level (confidence laptop_photo2)"
proof -
  let ?k = "''laptop-electronics''"
  let ?r' = "laptop_photo1\<lparr>quantity := 2, confidence := ''high''\<rparr>"
  have run: "consolidate_loop [(?k, laptop_photo1)] [laptop_photo2] = Inr [(?k, ?r')]"
    by code_simp
  have rep: "map_of [(?k, laptop_photo1)] ?k = Some laptop_photo1"
    by simp
  have neq: "confidence ?r' \<noteq> confidence laptop_photo1"
    by (simp add: example_fields)
  from tier_never_lowered [OF run rep] obtain r'
    where found: "map_of [(?k, ?r')] ?k = Some r'"
      and raised: "confidence r' \<noteq> confidence laptop_photo1 \<longrightarrow>
             (\<exists>x\<in>set [laptop_photo2]. item_key x = ?k \<and> confidence r' = confidence x
                \<and> level (confidence laptop_photo1) < level (confidence x))"
    by blast
  from found have "r' = ?r'"
    by simp
  with raised neq have "confidence ?r' = confidence laptop_photo2
      \<and> level (confidence laptop_photo1) < level (confidence laptop_photo2)"
    by fastforce
  with run rep neq show ?thesis
    by simp
qed
subsection \<open>C9: what a merge leaves alone\<close>

text \<open>
  Claim C9. Every output item has the name, category, description, condition,
  \<open>aiGenerated\<close> flag and source photo of the first input item with its consolidation key;
  merging later items changes its quantity and its tier only.
\<close>

theorem consolidate_frame:
  assumes "consolidate_items its = Inr out" and "r \<in> set out"
  shows "\<exists>f. find (\<lambda>i. consolidation_key i = consolidation_key r) its = Some f
           \<and> name r = name f \<and> category r = category f \<and> description r = description f
           \<and> condition r = condition f \<and> aiGenerated r = aiGenerated f
           \<and> sourcePhoto r = sourcePhoto f"
proof -
  from output_first_occurrence [OF assms] obtain f and later :: "DetectedItem list"
    where "find (\<lambda>i. consolidation_key i = consolidation_key r) its = Some f"
      and "r = f\<lparr>quantity := quantity f + int (length later),
               confidence := foldl higher_tier (confidence f) (map confidence later)\<rparr>"
    by blast
  moreover from merged_fields(3-8) [OF this(2)] have "name r = name f \<and> category r = category f
      \<and> description r = description f \<and> condition r = condition f
      \<and> aiGenerated r = aiGenerated f \<and> sourcePhoto r = sourcePhoto f"
    by simp
  ultimately show ?thesis
    by blast
qed
text \<open>The merged laptop keeps the description and the source photo of the first laptop.\<close>

theorem consolidate_frame_witness:
  "consolidate_items [laptop_photo1, mouse_photo2, laptop_photo2]
     = Inr [laptop_photo1\<lparr>quantity := 2, confidence := ''high''\<rparr>, mouse_photo2]
   \<and> find (\<lambda>i. consolidation_key i
                 = consolidation_key (laptop_photo1\<lparr>quantity := 2, confidence := ''high''\<rparr>))
        [laptop_photo1, mouse_photo2, laptop_photo2] = Some laptop_photo1
   \<and> description (laptop_photo1\<lparr>quantity := 2, confidence := ''high''\<rparr>)
       = description laptop_photo1
   \<and> sourcePhoto (laptop_photo1\<lparr>quantity := 2, confidence := ''high''\<rparr>) = ''photo1.jpg''"
proof -
  let ?r = "laptop_photo1\<lparr>quantity := 2, confidence := ''high''\<rparr>"
  let ?its = "[laptop_photo1, mouse_photo2, laptop_photo2]"
  have mem: "?r \<in> set [?r, mouse_photo2]"
    by simp
  from consolidate_frame [OF example_runs(1) mem] obtain f
    where f: "find (\<lambda>i. consolidation_key i = consolidation_key ?r) ?its = Some f"
      "description ?r = description f" "sourcePhoto ?r = sourcePhoto f"
    by blast
  have "find (\<lambda>i. consolidation_key i = consolidation_key ?r) ?its = Some laptop_photo1"
    by simp
  with f have "f = laptop_photo1"
    by simp
  with f example_runs(1) show ?thesis
    by (simp add: laptop_photo1_def)
qed
subsection \<open>C10: idempotence\<close>

text \<open>
  Claim C10. Whenever \<open>consolidate_items\<close> returns a list, consolidating that list again
  returns it unchanged.
\<close>

theorem consolidate_idempotent:
  assumes "consolidate_items its = Inr out"
  shows "consolidate_items out = Inr out"
proof -
  have "distinct (map item_key out)"
    by (simp add: output_keys [OF assms])
  then show ?thesis
    by (rule consolidate_items_distinct)
qed
text \<open>The merged laptop and the mouse stay as they are.\<close>

theorem consolidate_idempotent_witness:
  "consolidate_items [laptop_photo1, mouse_photo2, laptop_photo2]
     = Inr [laptop_photo1\<lparr>quantity := 2, confidence := ''high''\<rparr>, mouse_photo2]
   \<and> consolidate_items [laptop_photo1\<lparr>quantity := 2, confidence := ''high''\<rparr>, mouse_photo2]
     = Inr [laptop_photo1\<lparr>quantity := 2, confidence := ''high''\<rparr>, mouse_photo2]"
  using consolidate_idempotent [OF example_runs(1)] example_runs(1)
  by simp
end
